theory Spec2Isabelle
  imports Main "HOL-Library.Word"
begin

section \<open>The A340E shift controller (a340-controller.ino)\<close>

text \<open>
  A shallow embedding of the shift-control core of the sketch: the gear selector
  (\<open>determineTargetGear\<close> with \<open>getShiftPoint\<close> and \<open>isKickdownRequested\<close>), the shift
  state machine (\<open>processShiftLogic\<close>, \<open>executeShift\<close>), the two duty computations, the
  adaptive learner and the operator command \<open>forceGear\<close>.

  Conventions.
  \<^item> C \<open>int\<close> values (gears, percentages, km/h, degrees, duties, trims) are HOL \<open>int\<close>.
    \<open>readSensors\<close> clamps every sensor value, the trims stay in \<open>[-20, 20]\<close>, so none of
    the additions in the modelled functions can leave the 32-bit range; the one counter
    that grows, \<open>shift_count\<close>, is incremented at most once per shift episode.
  \<^item> \<open>unsigned long\<close> is 32 bits wide on the ESP32-S3: timestamps, durations and
    \<open>stats.total_shifts\<close> are \<open>32 word\<close>, and their subtraction wraps as in C.
  \<^item> The global variables of the sketch are passed explicitly: the struct
    \<open>trans_state\<close> is the record \<open>TransmissionState\<close>, extended in \<open>controller\<close> with the
    other globals the core writes (\<open>stats.total_shifts\<close>, the two static locals of
    \<open>isKickdownRequested\<close>, the levels of the pins S1 and S2 and the two PWM duties).
  \<^item> Every call of \<open>millis()\<close> is an input: the record \<open>clock\<close> holds, for one pass of
    \<open>loop()\<close>, the elapsed milliseconds since boot at each place where the code reads
    the clock, and \<open>millis\<close> truncates that to the 32-bit counter the code sees.
  \<^item> Serial output is not modelled.
\<close>

subsection \<open>Arduino core helpers\<close>

text \<open>C integer division truncates towards zero.\<close>

definition c_div :: "int \<Rightarrow> int \<Rightarrow> int" where
  "c_div a b = sgn a * sgn b * (\<bar>a\<bar> div \<bar>b\<bar>)"

text \<open>
  Modelled from the spec: \<open>map\<close> belongs to the Arduino core, which is not part of the
  sketch. The spec describes the interpolation built on it as integer and truncating
  towards zero; the definition follows the core's
  \<open>(x - in_min) * (out_max - out_min) / (in_max - in_min) + out_min\<close>. It is named
  \<open>map_range\<close> here, \<open>map\<close> being the list functional of HOL.
\<close>

definition map_range :: "int \<Rightarrow> int \<Rightarrow> int \<Rightarrow> int \<Rightarrow> int \<Rightarrow> int" where
  "map_range x in_min in_max out_min out_max =
     c_div ((x - in_min) * (out_max - out_min)) (in_max - in_min) + out_min"

text \<open>
  Modelled from the spec: \<open>constrain\<close> is a macro of the Arduino core, the clamp of the
  spec: \<open>amt < low ? low : (amt > high ? high : amt)\<close>.
\<close>

definition constrain :: "int \<Rightarrow> int \<Rightarrow> int \<Rightarrow> int" where
  "constrain amt low high = (if amt < low then low else if amt > high then high else amt)"

subsection \<open>Constants\<close>

abbreviation SHIFT_1_2_UP :: "int list" where "SHIFT_1_2_UP \<equiv> [15, 20, 30, 45, 60]"
abbreviation SHIFT_2_3_UP :: "int list" where "SHIFT_2_3_UP \<equiv> [35, 45, 60, 80, 100]"
abbreviation SHIFT_3_4_UP :: "int list" where "SHIFT_3_4_UP \<equiv> [55, 65, 85, 110, 130]"

abbreviation SHIFT_2_1_DOWN :: "int list" where "SHIFT_2_1_DOWN \<equiv> [10, 12, 18, 25, 35]"
abbreviation SHIFT_3_2_DOWN :: "int list" where "SHIFT_3_2_DOWN \<equiv> [28, 35, 48, 65, 80]"
abbreviation SHIFT_4_3_DOWN :: "int list" where "SHIFT_4_3_DOWN \<equiv> [48, 55, 72, 95, 115]"

abbreviation SHIFT_1_2_UP_PWR :: "int list" where "SHIFT_1_2_UP_PWR \<equiv> [20, 30, 45, 60, 75]"
abbreviation SHIFT_2_3_UP_PWR :: "int list" where "SHIFT_2_3_UP_PWR \<equiv> [45, 60, 80, 100, 120]"
abbreviation SHIFT_3_4_UP_PWR :: "int list" where "SHIFT_3_4_UP_PWR \<equiv> [70, 85, 110, 130, 150]"

definition KICKDOWN_THRESHOLD :: int where "KICKDOWN_THRESHOLD = 85"
definition KICKDOWN_4_3_SPEED :: int where "KICKDOWN_4_3_SPEED = 120"
definition KICKDOWN_3_2_SPEED :: int where "KICKDOWN_3_2_SPEED = 90"
definition KICKDOWN_2_1_SPEED :: int where "KICKDOWN_2_1_SPEED = 50"

definition SHIFT_DELAY :: "32 word" where "SHIFT_DELAY = 150"
definition SHIFT_COMPLETE_TIME :: "32 word" where "SHIFT_COMPLETE_TIME = 500"
definition SHIFT_INHIBIT_TIME :: "32 word" where "SHIFT_INHIBIT_TIME = 800"

definition ACC_SOFT :: int where "ACC_SOFT = 70"
definition ACC_MEDIUM :: int where "ACC_MEDIUM = 50"
definition ACC_FIRM :: int where "ACC_FIRM = 30"
definition ACC_KICKDOWN :: int where "ACC_KICKDOWN = 20"

definition LOCKUP_ENABLE_GEAR :: int where "LOCKUP_ENABLE_GEAR = 3"
definition LOCKUP_ENABLE_SPEED :: int where "LOCKUP_ENABLE_SPEED = 60"
definition LOCKUP_DISABLE_SPEED :: int where "LOCKUP_DISABLE_SPEED = 50"
definition LOCKUP_THROTTLE_MAX :: int where "LOCKUP_THROTTLE_MAX = 70"

definition PWM_MAX_DUTY :: int where "PWM_MAX_DUTY = 1023"

lemmas const_defs =
  KICKDOWN_THRESHOLD_def KICKDOWN_4_3_SPEED_def KICKDOWN_3_2_SPEED_def KICKDOWN_2_1_SPEED_def
  SHIFT_DELAY_def SHIFT_COMPLETE_TIME_def SHIFT_INHIBIT_TIME_def
  ACC_SOFT_def ACC_MEDIUM_def ACC_FIRM_def ACC_KICKDOWN_def
  LOCKUP_ENABLE_GEAR_def LOCKUP_ENABLE_SPEED_def LOCKUP_DISABLE_SPEED_def
  LOCKUP_THROTTLE_MAX_def PWM_MAX_DUTY_def

subsection \<open>Data structures\<close>

datatype ShiftState = SHIFT_STABLE | SHIFT_REQUESTED | SHIFT_IN_PROGRESS | SHIFT_COMPLETING

text \<open>
  An \<open>int[3]\<close> array. Every access in the modelled code is guarded by
  \<open>0 \<le> shift_index < 3\<close>; outside that range \<open>int3_get\<close> and \<open>int3_set\<close> are never
  called, and their value there (the last cell, no change) is not used by any result.
\<close>

datatype int3 = Int3 int int int

fun int3_get :: "int3 \<Rightarrow> int \<Rightarrow> int" where
  "int3_get (Int3 a b c) i = (if i = 0 then a else if i = 1 then b else c)"

fun int3_set :: "int3 \<Rightarrow> int \<Rightarrow> int \<Rightarrow> int3" where
  "int3_set (Int3 a b c) i v =
     (if i = 0 then Int3 v b c else if i = 1 then Int3 a v c
      else if i = 2 then Int3 a b v else Int3 a b c)"

record TransmissionState =
  current_gear :: int
  target_gear :: int
  shift_state :: ShiftState
  shift_start_time :: "32 word"
  last_shift_time :: "32 word"
  shift_duration_ms :: "32 word"
  kickdown_active :: bool
  power_mode :: bool
  lockup_engaged :: bool
  lockup_duty :: int
  accumulator_duty :: int
  shift_quality_offset :: int3
  shift_count :: int3
  limp_mode :: bool

record controller = TransmissionState +
  total_shifts :: "32 word"
  last_throttle :: int
  throttle_change_time :: "32 word"
  s1_pin :: bool
  s2_pin :: bool
  sln_pwm :: int
  slu_pwm :: int

record SensorData =
  tps_raw :: int
  throttle_percent :: int
  vehicle_speed_kmh :: int
  engine_rpm :: int
  output_rpm :: int
  fluid_temp_c :: int
  brake_pressed :: bool
  overdrive_enabled :: bool
  throttle_filtered :: int
  speed_filtered :: int

text \<open>
  The clock readings of one pass of \<open>loop()\<close>, in milliseconds since boot:
  \<open>t_tick\<close> is read at the top of \<open>processShiftLogic\<close>, \<open>t_kd_rise\<close> and \<open>t_kd_check\<close> by
  the two calls in \<open>isKickdownRequested\<close>, \<open>t_exec\<close> by \<open>executeShift\<close> and \<open>t_learn\<close> by
  \<open>updateAdaptiveLearning\<close>.
\<close>

record clock =
  t_tick :: nat
  t_kd_rise :: nat
  t_kd_check :: nat
  t_exec :: nat
  t_learn :: nat

definition millis :: "nat \<Rightarrow> 32 word" where
  "millis t = of_nat t"

subsection \<open>PWM outputs\<close>

definition setLockup :: "int \<Rightarrow> controller \<Rightarrow> controller" where
  "setLockup duty g =
     (let duty' = constrain duty 0 100;
          pwm_val = map_range duty' 0 100 0 PWM_MAX_DUTY
      in g\<lparr>slu_pwm := pwm_val\<rparr>)"

definition setAccumulator :: "int \<Rightarrow> controller \<Rightarrow> controller" where
  "setAccumulator duty g =
     (let duty' = constrain duty 0 100;
          pwm_val = map_range duty' 0 100 0 PWM_MAX_DUTY
      in g\<lparr>sln_pwm := pwm_val\<rparr>)"

subsection \<open>Shift logic\<close>

definition getShiftPoint :: "int list \<Rightarrow> int \<Rightarrow> int" where
  "getShiftPoint table throttle =
     (if throttle \<le> 10 then table ! 0
      else if throttle \<le> 25 then map_range throttle 10 25 (table ! 0) (table ! 1)
      else if throttle \<le> 50 then map_range throttle 25 50 (table ! 1) (table ! 2)
      else if throttle \<le> 75 then map_range throttle 50 75 (table ! 2) (table ! 3)
      else map_range throttle 75 100 (table ! 3) (table ! 4))"

definition isKickdownRequested :: "SensorData \<Rightarrow> clock \<Rightarrow> controller \<Rightarrow> bool \<times> controller" where
  "isKickdownRequested sn ck g =
     (let g1 = (if throttle_percent sn - last_throttle g > 20
                then g\<lparr>throttle_change_time := millis (t_kd_rise ck)\<rparr> else g);
          g2 = g1\<lparr>last_throttle := throttle_percent sn\<rparr>
      in (throttle_percent sn > KICKDOWN_THRESHOLD \<and>
          millis (t_kd_check ck) - throttle_change_time g2 < 200, g2))"

text \<open>
  The part of \<open>determineTargetGear\<close> after the kickdown block (the comments
  \<open>// Upshifts\<close>, \<open>// Downshifts\<close> and the brake block), on the local \<open>target\<close>.
\<close>

definition scheduleGear :: "SensorData \<Rightarrow> controller \<Rightarrow> int \<Rightarrow> int" where
  "scheduleGear sn g target =
     (let shift_1_2 = (if power_mode g then SHIFT_1_2_UP_PWR else SHIFT_1_2_UP);
          shift_2_3 = (if power_mode g then SHIFT_2_3_UP_PWR else SHIFT_2_3_UP);
          shift_3_4 = (if power_mode g then SHIFT_3_4_UP_PWR else SHIFT_3_4_UP);
          speed = vehicle_speed_kmh sn;
          thr = throttle_percent sn;
          t1 = (if current_gear g = 1
                then (if speed > getShiftPoint shift_1_2 thr then 2 else target)
                else if current_gear g = 2
                then (if speed > getShiftPoint shift_2_3 thr then 3 else target)
                else if current_gear g = 3 \<and> overdrive_enabled sn
                then (if speed > getShiftPoint shift_3_4 thr then 4 else target)
                else target);
          t2 = (if current_gear g = 4
                then (if speed < getShiftPoint SHIFT_4_3_DOWN thr then 3 else t1)
                else if current_gear g = 3
                then (if speed < getShiftPoint SHIFT_3_2_DOWN thr then 2 else t1)
                else if current_gear g = 2
                then (if speed < getShiftPoint SHIFT_2_1_DOWN thr then 1 else t1)
                else t1);
          t3 = (if brake_pressed sn \<and> thr < 5
                then (let b1 = (if current_gear g = 4 \<and> speed < 70 then 3 else t2)
                      in (if current_gear g = 3 \<and> speed < 45 then 2 else b1))
                else t2)
      in t3)"

definition determineTargetGear :: "SensorData \<Rightarrow> clock \<Rightarrow> controller \<Rightarrow> int \<times> controller" where
  "determineTargetGear sn ck g =
     (if limp_mode g then (3, g)
      else
        let target0 = current_gear g;
            target = (if \<not> overdrive_enabled sn \<and> target0 > 3 then 3 else target0);
            (kd, gk) = isKickdownRequested sn ck g;
            g' = gk\<lparr>kickdown_active := kd\<rparr>
        in if kd \<and> current_gear g' = 4 \<and> vehicle_speed_kmh sn < KICKDOWN_4_3_SPEED then (3, g')
           else if kd \<and> current_gear g' = 3 \<and> vehicle_speed_kmh sn < KICKDOWN_3_2_SPEED then (2, g')
           else if kd \<and> current_gear g' = 2 \<and> vehicle_speed_kmh sn < KICKDOWN_2_1_SPEED then (1, g')
           else (scheduleGear sn g' target, g'))"

definition executeShift :: "clock \<Rightarrow> int \<Rightarrow> int \<Rightarrow> controller \<Rightarrow> controller" where
  "executeShift ck from_gear to_gear g =
     (let g1 = (if to_gear = 1 then g\<lparr>s1_pin := False, s2_pin := False\<rparr>
                else if to_gear = 2 then g\<lparr>s1_pin := True, s2_pin := False\<rparr>
                else if to_gear = 3 then g\<lparr>s1_pin := False, s2_pin := True\<rparr>
                else if to_gear = 4 then g\<lparr>s1_pin := True, s2_pin := True\<rparr>
                else g)
      in g1\<lparr>current_gear := to_gear,
             last_shift_time := millis (t_exec ck),
             total_shifts := total_shifts g1 + 1\<rparr>)"

definition calculateAccumulatorDuty :: "SensorData \<Rightarrow> controller \<Rightarrow> int" where
  "calculateAccumulatorDuty sn g =
     (let base0 = (if shift_state g = SHIFT_IN_PROGRESS
                   then (let b = (if kickdown_active g then ACC_KICKDOWN
                                  else if throttle_percent sn > 60 then ACC_FIRM
                                  else if throttle_percent sn < 25 then ACC_SOFT
                                  else ACC_MEDIUM);
                             shift_index = target_gear g - 2
                         in if shift_index \<ge> 0 \<and> shift_index < 3
                            then b + int3_get (shift_quality_offset g) shift_index
                            else b)
                   else ACC_MEDIUM);
          base_duty = (if fluid_temp_c sn < 40 then base0 - 20
                       else if fluid_temp_c sn < 60 then base0 - 10
                       else if fluid_temp_c sn > 100 then base0 + 10
                       else base0)
      in constrain base_duty 15 85)"

definition can_lockup :: "SensorData \<Rightarrow> controller \<Rightarrow> bool" where
  "can_lockup sn g =
     (current_gear g \<ge> LOCKUP_ENABLE_GEAR \<and>
      vehicle_speed_kmh sn > LOCKUP_ENABLE_SPEED \<and>
      throttle_percent sn < LOCKUP_THROTTLE_MAX \<and>
      shift_state g = SHIFT_STABLE \<and>
      fluid_temp_c sn > 50)"

definition must_unlock :: "SensorData \<Rightarrow> controller \<Rightarrow> bool" where
  "must_unlock sn g =
     (vehicle_speed_kmh sn < LOCKUP_DISABLE_SPEED \<or>
      throttle_percent sn > LOCKUP_THROTTLE_MAX + 10 \<or>
      shift_state g \<noteq> SHIFT_STABLE \<or>
      current_gear g < LOCKUP_ENABLE_GEAR)"

definition calculateLockupDuty :: "SensorData \<Rightarrow> controller \<Rightarrow> int \<times> controller" where
  "calculateLockupDuty sn g =
     (if must_unlock sn g then (0, g\<lparr>lockup_engaged := False\<rparr>)
      else if can_lockup sn g
      then (if throttle_percent sn < 20 then 95
            else if throttle_percent sn < 40 then 75
            else 50, g\<lparr>lockup_engaged := True\<rparr>)
      else (0, g))"

definition updateAdaptiveLearning :: "SensorData \<Rightarrow> clock \<Rightarrow> controller \<Rightarrow> controller" where
  "updateAdaptiveLearning sn ck g =
     (if target_gear g \<le> current_gear g then g
      else if kickdown_active g then g
      else if throttle_percent sn > 75 then g
      else
        let shift_index = target_gear g - 2
        in if shift_index < 0 \<or> shift_index \<ge> 3 then g
           else
             let g1 = g\<lparr>shift_duration_ms := millis (t_learn ck) - shift_start_time g\<rparr>;
                 off = int3_get (shift_quality_offset g1) shift_index;
                 off' = (if shift_duration_ms g1 > 450 then off - 2
                         else if shift_duration_ms g1 < 350 then off + 2
                         else off);
                 g2 = g1\<lparr>shift_quality_offset :=
                          int3_set (shift_quality_offset g1) shift_index (constrain off' (-20) 20)\<rparr>
             in g2\<lparr>shift_count :=
                     int3_set (shift_count g2) shift_index
                       (int3_get (shift_count g2) shift_index + 1)\<rparr>)"

text \<open>The \<open>switch (trans_state.shift_state)\<close> of \<open>processShiftLogic\<close>.\<close>

definition shiftSwitch :: "SensorData \<Rightarrow> clock \<Rightarrow> controller \<Rightarrow> controller" where
  "shiftSwitch sn ck g =
     (let current_time = millis (t_tick ck)
      in case shift_state g of
           SHIFT_STABLE \<Rightarrow>
             (let (tg, ga) = determineTargetGear sn ck g;
                  gb = ga\<lparr>target_gear := tg\<rparr>
              in if target_gear gb \<noteq> current_gear gb
                 then (if current_time - last_shift_time gb > SHIFT_INHIBIT_TIME
                       then gb\<lparr>shift_state := SHIFT_REQUESTED, shift_start_time := current_time\<rparr>
                       else gb)
                 else gb)
         | SHIFT_REQUESTED \<Rightarrow>
             (if current_time - shift_start_time g > SHIFT_DELAY
              then (let (recheck_target, ga) = determineTargetGear sn ck g
                    in if recheck_target = target_gear ga
                       then executeShift ck (current_gear ga) (target_gear ga)
                              (ga\<lparr>shift_state := SHIFT_IN_PROGRESS\<rparr>)
                       else ga\<lparr>shift_state := SHIFT_STABLE\<rparr>)
              else g)
         | SHIFT_IN_PROGRESS \<Rightarrow>
             (if current_time - shift_start_time g > SHIFT_COMPLETE_TIME
              then g\<lparr>shift_state := SHIFT_COMPLETING\<rparr> else g)
         | SHIFT_COMPLETING \<Rightarrow>
             (if current_time - shift_start_time g > SHIFT_COMPLETE_TIME + 200
              then updateAdaptiveLearning sn ck (g\<lparr>shift_state := SHIFT_STABLE\<rparr>)
              else g))"

definition processShiftLogic :: "SensorData \<Rightarrow> clock \<Rightarrow> controller \<Rightarrow> controller" where
  "processShiftLogic sn ck g =
     (let g1 = shiftSwitch sn ck g;
          g2 = g1\<lparr>accumulator_duty := calculateAccumulatorDuty sn g1\<rparr>;
          (ld, g3) = calculateLockupDuty sn g2;
          g4 = g3\<lparr>lockup_duty := ld\<rparr>
      in setLockup (lockup_duty g4) (setAccumulator (accumulator_duty g4) g4))"

subsection \<open>Initialisation, the main loop, operator commands\<close>

text \<open>
  The globals after \<open>setup()\<close>: the assignments of \<open>initTransmission\<close>, the zero duties
  written by \<open>setupPWM\<close>, and the zero-initialised statics and remaining fields.
\<close>

definition initTransmission :: controller where
  "initTransmission =
     \<lparr> current_gear = 1, target_gear = 1, shift_state = SHIFT_STABLE,
       shift_start_time = 0, last_shift_time = 0, shift_duration_ms = 0,
       kickdown_active = False, power_mode = False, lockup_engaged = False,
       lockup_duty = 0, accumulator_duty = ACC_MEDIUM,
       shift_quality_offset = Int3 0 0 0, shift_count = Int3 0 0 0,
       limp_mode = False,
       total_shifts = 0, last_throttle = 0, throttle_change_time = 0,
       s1_pin = False, s2_pin = False, sln_pwm = 0, slu_pwm = 0 \<rparr>"

text \<open>
  One pass of \<open>loop()\<close> as far as the core is concerned: \<open>readSensors\<close> leaves a
  snapshot in \<open>sensors\<close> and the mode switch in \<open>trans_state.power_mode\<close>, then
  \<open>processShiftLogic\<close> runs. The conditioning inside \<open>readSensors\<close> is not modelled: its
  results are the input.
\<close>

record tick_in =
  sens :: SensorData
  mode_switch :: bool
  clk :: clock

definition loop :: "controller \<Rightarrow> tick_in \<Rightarrow> controller" where
  "loop g i = processShiftLogic (sens i) (clk i) (g\<lparr>power_mode := mode_switch i\<rparr>)"

definition run :: "controller \<Rightarrow> tick_in list \<Rightarrow> controller" where
  "run g is = foldl loop g is"

definition forceGear :: "clock \<Rightarrow> int \<Rightarrow> controller \<Rightarrow> controller" where
  "forceGear ck gear g =
     (if gear < 1 \<or> gear > 4 then g
      else
        let g1 = g\<lparr>current_gear := gear\<rparr>;
            g2 = g1\<lparr>target_gear := gear\<rparr>
        in executeShift ck (current_gear g2) gear g2)"

subsection \<open>The accumulator duty as the specification words it\<close>

definition acc_base_spec :: "SensorData \<Rightarrow> controller \<Rightarrow> int" where
  "acc_base_spec sn g =
     (if shift_state g = SHIFT_IN_PROGRESS
      then (if kickdown_active g then 20
            else if throttle_percent sn > 60 then 30
            else if throttle_percent sn < 25 then 70
            else 50)
           + (if target_gear g \<in> {2, 3, 4}
              then int3_get (shift_quality_offset g) (target_gear g - 2) else 0)
      else 50)"

definition temp_comp_spec :: "int \<Rightarrow> int" where
  "temp_comp_spec temp =
     (if temp < 40 then - 20
      else if 40 \<le> temp \<and> temp < 60 then - 10
      else if temp > 100 then 10
      else 0)"

definition clamp_spec :: "int \<Rightarrow> int \<Rightarrow> int \<Rightarrow> int" where
  "clamp_spec x lo hi = max lo (min hi x)"


subsection \<open>Executions\<close>

text \<open>
  The clock is monotonic: within a pass the readings do not decrease in the order in
  which the code takes them, and a pass starts no earlier than the previous one ended
  (\<open>T\<close> is a lower bound for the first reading).
\<close>

fun clock_mono :: "nat \<Rightarrow> tick_in list \<Rightarrow> bool" where
  "clock_mono T [] = True"
| "clock_mono T (i # is) =
     (T \<le> t_tick (clk i) \<and> t_tick (clk i) \<le> t_kd_rise (clk i) \<and>
      t_kd_rise (clk i) \<le> t_kd_check (clk i) \<and> t_kd_check (clk i) \<le> t_exec (clk i) \<and>
      t_exec (clk i) \<le> t_learn (clk i) \<and> clock_mono (t_learn (clk i)) is)"

text \<open>
  The times, in milliseconds since boot, at which \<open>executeShift\<close> is invoked along an
  execution: a pass invokes it exactly when \<open>stats.total_shifts\<close> changes, and the time is
  the reading \<open>executeShift\<close> itself takes.
\<close>

fun shift_times :: "controller \<Rightarrow> tick_in list \<Rightarrow> nat list" where
  "shift_times g [] = []"
| "shift_times g (i # is) =
     (if total_shifts (loop g i) \<noteq> total_shifts g
      then t_exec (clk i) # shift_times (loop g i) is
      else shift_times (loop g i) is)"

text \<open>
  After \<open>executeShift\<close> and until the episode is over the two gears agree: outside
  \<open>SHIFT_STABLE\<close> and \<open>SHIFT_REQUESTED\<close>, \<open>current_gear\<close> equals \<open>target_gear\<close>.
\<close>

definition episode_gears_agree :: "controller \<Rightarrow> bool" where
  "episode_gears_agree g =
     (shift_state g = SHIFT_STABLE \<or> shift_state g = SHIFT_REQUESTED \<or>
      current_gear g = target_gear g)"

subsection \<open>Sample inputs\<close>

text \<open>
  A sensor snapshot with the given throttle, speed, fluid temperature, brake and overdrive
  switch; a pass of the loop whose clock readings all fall in the same millisecond; such
  a pass in Normal mode.
\<close>

definition snapshot :: "int \<Rightarrow> int \<Rightarrow> int \<Rightarrow> bool \<Rightarrow> bool \<Rightarrow> SensorData" where
  "snapshot thr spd temp brake od =
     \<lparr> tps_raw = 0, throttle_percent = thr, vehicle_speed_kmh = spd, engine_rpm = 0,
       output_rpm = 0, fluid_temp_c = temp, brake_pressed = brake, overdrive_enabled = od,
       throttle_filtered = thr, speed_filtered = spd \<rparr>"

definition at_ms :: "nat \<Rightarrow> clock" where
  "at_ms t = \<lparr> t_tick = t, t_kd_rise = t, t_kd_check = t, t_exec = t, t_learn = t \<rparr>"

definition pass :: "nat \<Rightarrow> SensorData \<Rightarrow> tick_in" where
  "pass t sn = \<lparr> sens = sn, mode_switch = False, clk = at_ms t \<rparr>"


text \<open>
  A drive through the gears in Normal mode at 30 percent throttle and 80 degrees of
  fluid temperature, overdrive allowed: four passes per episode (request, shift, end of
  the shift, end of the settling time), at 25, 50 and 80 km/h.
\<close>

definition cruise :: "int \<Rightarrow> bool \<Rightarrow> SensorData" where
  "cruise spd od = snapshot 30 spd 80 False od"

definition upshift_1_2 :: "tick_in list" where
  "upshift_1_2 = map (\<lambda>t. pass t (cruise 25 True)) [3000, 3160, 3520, 3720]"

definition upshift_2_3 :: "tick_in list" where
  "upshift_2_3 = map (\<lambda>t. pass t (cruise 50 True)) [4000, 4160, 4520, 4720]"


text \<open>The controller at the end of each of the three episodes.\<close>

definition in_second :: controller where
  "in_second =
     \<lparr> current_gear = 2, target_gear = 2, shift_state = SHIFT_STABLE,
       shift_start_time = 3000, last_shift_time = 3160, shift_duration_ms = 0,
       kickdown_active = False, power_mode = False, lockup_engaged = False,
       lockup_duty = 0, accumulator_duty = 50,
       shift_quality_offset = Int3 0 0 0, shift_count = Int3 0 0 0,
       limp_mode = False,
       total_shifts = 1, last_throttle = 30, throttle_change_time = 3000,
       s1_pin = True, s2_pin = False, sln_pwm = 511, slu_pwm = 0 \<rparr>"

definition in_third :: controller where
  "in_third =
     \<lparr> current_gear = 3, target_gear = 3, shift_state = SHIFT_STABLE,
       shift_start_time = 4000, last_shift_time = 4160, shift_duration_ms = 0,
       kickdown_active = False, power_mode = False, lockup_engaged = False,
       lockup_duty = 0, accumulator_duty = 50,
       shift_quality_offset = Int3 0 0 0, shift_count = Int3 0 0 0,
       limp_mode = False,
       total_shifts = 2, last_throttle = 30, throttle_change_time = 3000,
       s1_pin = False, s2_pin = True, sln_pwm = 511, slu_pwm = 0 \<rparr>"

definition in_fourth :: controller where
  "in_fourth =
     \<lparr> current_gear = 4, target_gear = 4, shift_state = SHIFT_STABLE,
       shift_start_time = 5000, last_shift_time = 5160, shift_duration_ms = 0,
       kickdown_active = False, power_mode = False, lockup_engaged = True,
       lockup_duty = 75, accumulator_duty = 50,
       shift_quality_offset = Int3 0 0 0, shift_count = Int3 0 0 0,
       limp_mode = False,
       total_shifts = 3, last_throttle = 30, throttle_change_time = 3000,
       s1_pin = True, s2_pin = True, sln_pwm = 511, slu_pwm = 767 \<rparr>"


section \<open>What each function leaves unchanged\<close>

lemma isKickdownRequested_frame:
  "\<exists>a b. snd (isKickdownRequested sn ck g) = g\<lparr>throttle_change_time := a, last_throttle := b\<rparr>"
  unfolding isKickdownRequested_def Let_def
  by (cases "throttle_percent sn - last_throttle g > 20") (simp, metis, simp, metis controller.surjective controller.update_convs(3))

lemma controller_self_update:
  "g = g\<lparr>kickdown_active := kickdown_active g, throttle_change_time := throttle_change_time g,
         last_throttle := last_throttle g\<rparr>"
  by simp

lemma determineTargetGear_snd:
  "snd (determineTargetGear sn ck g) =
     (if limp_mode g then g
      else (snd (isKickdownRequested sn ck g))
             \<lparr>kickdown_active := fst (isKickdownRequested sn ck g)\<rparr>)"
  by (simp add: determineTargetGear_def Let_def split_beta)

lemma determineTargetGear_frame:
  "\<exists>k a b. snd (determineTargetGear sn ck g) =
      g\<lparr>kickdown_active := k, throttle_change_time := a, last_throttle := b\<rparr>"
proof (cases "limp_mode g")
  case True
  then have "snd (determineTargetGear sn ck g) = g"
    by (simp add: determineTargetGear_snd)
  then show ?thesis
    using controller_self_update [of g] by metis
next
  case False
  obtain a b where "snd (isKickdownRequested sn ck g) =
      g\<lparr>throttle_change_time := a, last_throttle := b\<rparr>"
    using isKickdownRequested_frame by blast
  with False have "snd (determineTargetGear sn ck g) =
      g\<lparr>kickdown_active := fst (isKickdownRequested sn ck g),
         throttle_change_time := a, last_throttle := b\<rparr>"
    by (simp add: determineTargetGear_snd)
  then show ?thesis by blast
qed

lemma processShiftLogic_frame:
  "\<exists>a e d p q. processShiftLogic sn ck g =
      (shiftSwitch sn ck g)\<lparr>accumulator_duty := a, lockup_engaged := e, lockup_duty := d,
         sln_pwm := p, slu_pwm := q\<rparr>"
proof -
  let ?g1 = "shiftSwitch sn ck g"
  let ?g2 = "?g1\<lparr>accumulator_duty := calculateAccumulatorDuty sn ?g1\<rparr>"
  have "\<exists>e. snd (calculateLockupDuty sn ?g2) = ?g2\<lparr>lockup_engaged := e\<rparr>"
  proof (cases "must_unlock sn ?g2 \<or> can_lockup sn ?g2")
    case True
    then show ?thesis by (auto simp: calculateLockupDuty_def)
  next
    case False
    then have "snd (calculateLockupDuty sn ?g2) = ?g2\<lparr>lockup_engaged := lockup_engaged ?g2\<rparr>"
      by (simp add: calculateLockupDuty_def)
    then show ?thesis by blast
  qed
  then obtain e where "snd (calculateLockupDuty sn ?g2) = ?g2\<lparr>lockup_engaged := e\<rparr>" ..
  then have "processShiftLogic sn ck g =
      ?g1\<lparr>accumulator_duty := calculateAccumulatorDuty sn ?g1, lockup_engaged := e,
          lockup_duty := fst (calculateLockupDuty sn ?g2),
          sln_pwm := map_range (constrain (calculateAccumulatorDuty sn ?g1) 0 100) 0 100 0 PWM_MAX_DUTY,
          slu_pwm := map_range (constrain (fst (calculateLockupDuty sn ?g2)) 0 100) 0 100 0 PWM_MAX_DUTY\<rparr>"
    by (simp add: processShiftLogic_def Let_def split_beta setLockup_def setAccumulator_def)
  then show ?thesis by blast
qed

lemma updateAdaptiveLearning_frame:
  "\<exists>d q c. updateAdaptiveLearning sn ck g =
      g\<lparr>shift_duration_ms := d, shift_quality_offset := q, shift_count := c\<rparr>"
proof -
  have self: "g = g\<lparr>shift_duration_ms := shift_duration_ms g,
      shift_quality_offset := shift_quality_offset g, shift_count := shift_count g\<rparr>"
    by simp
  show ?thesis
  proof (cases "target_gear g \<le> current_gear g \<or> kickdown_active g \<or> throttle_percent sn > 75
      \<or> target_gear g - 2 < 0 \<or> target_gear g - 2 \<ge> 3")
    case True
    then have "updateAdaptiveLearning sn ck g = g"
      by (auto simp: updateAdaptiveLearning_def)
    then show ?thesis using self by metis
  next
    case False
    then show ?thesis
      by (simp add: updateAdaptiveLearning_def Let_def) blast
  qed
qed

lemma shiftSwitch_target_gear:
  "target_gear (shiftSwitch sn ck g) =
     (if shift_state g = SHIFT_STABLE then fst (determineTargetGear sn ck g) else target_gear g)"
proof -
  obtain k a b where dt: "snd (determineTargetGear sn ck g) =
      g\<lparr>kickdown_active := k, throttle_change_time := a, last_throttle := b\<rparr>"
    using determineTargetGear_frame by blast
  obtain d q c where ua: "updateAdaptiveLearning sn ck (g\<lparr>shift_state := SHIFT_STABLE\<rparr>) =
      g\<lparr>shift_state := SHIFT_STABLE, shift_duration_ms := d, shift_quality_offset := q,
        shift_count := c\<rparr>"
    using updateAdaptiveLearning_frame [of sn ck "g\<lparr>shift_state := SHIFT_STABLE\<rparr>"] by auto
  show ?thesis
    by (cases "shift_state g")
       (simp_all add: shiftSwitch_def Let_def split_beta dt ua executeShift_def)
qed

lemma processShiftLogic_target_gear:
  "target_gear (processShiftLogic sn ck g) =
     (if shift_state g = SHIFT_STABLE then fst (determineTargetGear sn ck g) else target_gear g)"
proof -
  obtain a e d p q where "processShiftLogic sn ck g =
      (shiftSwitch sn ck g)\<lparr>accumulator_duty := a, lockup_engaged := e, lockup_duty := d,
         sln_pwm := p, slu_pwm := q\<rparr>"
    using processShiftLogic_frame by blast
  then show ?thesis by (simp add: shiftSwitch_target_gear)
qed

section \<open>The state machine, edge by edge\<close>

text \<open>
  \<open>executeShift\<close> is the only writer of \<open>stats.total_shifts\<close>, and adding one to a 32-bit
  counter always changes it: a pass of the switch invoked \<open>executeShift\<close> exactly when the
  counter differs afterwards.
\<close>

lemma shiftSwitch_facts:
  fixes sn ck g
  defines "ss \<equiv> shiftSwitch sn ck g"
    and "now \<equiv> millis (t_tick ck)"
    and "tg \<equiv> fst (determineTargetGear sn ck g)"
  shows shiftSwitch_limp_mode: "limp_mode ss = limp_mode g"
    and shiftSwitch_current_gear:
      "shift_state g \<noteq> SHIFT_REQUESTED \<Longrightarrow> current_gear ss = current_gear g"
    and shiftSwitch_fires_iff:
      "total_shifts ss \<noteq> total_shifts g \<longleftrightarrow>
         shift_state g = SHIFT_REQUESTED \<and> now - shift_start_time g > SHIFT_DELAY \<and>
         tg = target_gear g"
    and shiftSwitch_fired:
      "total_shifts ss \<noteq> total_shifts g \<Longrightarrow>
         last_shift_time ss = millis (t_exec ck) \<and> shift_state ss = SHIFT_IN_PROGRESS \<and>
         current_gear ss = target_gear ss"
    and shiftSwitch_not_fired:
      "total_shifts ss = total_shifts g \<Longrightarrow> last_shift_time ss = last_shift_time g"
    and shiftSwitch_requested:
      "total_shifts ss = total_shifts g \<Longrightarrow> shift_state ss = SHIFT_REQUESTED \<Longrightarrow>
         shift_state g = SHIFT_REQUESTED \<or>
         shift_state g = SHIFT_STABLE \<and> now - last_shift_time g > SHIFT_INHIBIT_TIME"
proof -
  obtain k a b where dt: "snd (determineTargetGear sn ck g) =
      g\<lparr>kickdown_active := k, throttle_change_time := a, last_throttle := b\<rparr>"
    using determineTargetGear_frame by blast
  obtain d q c where ua: "updateAdaptiveLearning sn ck (g\<lparr>shift_state := SHIFT_STABLE\<rparr>) =
      g\<lparr>shift_state := SHIFT_STABLE, shift_duration_ms := d, shift_quality_offset := q,
        shift_count := c\<rparr>"
    using updateAdaptiveLearning_frame [of sn ck "g\<lparr>shift_state := SHIFT_STABLE\<rparr>"] by auto
  note defs = ss_def now_def tg_def shiftSwitch_def Let_def split_beta dt ua executeShift_def
  show "limp_mode ss = limp_mode g"
    by (cases "shift_state g") (simp_all add: defs)
  show "shift_state g \<noteq> SHIFT_REQUESTED \<Longrightarrow> current_gear ss = current_gear g"
    by (cases "shift_state g") (simp_all add: defs)
  show "total_shifts ss \<noteq> total_shifts g \<longleftrightarrow>
         shift_state g = SHIFT_REQUESTED \<and> now - shift_start_time g > SHIFT_DELAY \<and>
         tg = target_gear g"
    by (cases "shift_state g") (simp_all add: defs)
  show "total_shifts ss \<noteq> total_shifts g \<Longrightarrow>
         last_shift_time ss = millis (t_exec ck) \<and> shift_state ss = SHIFT_IN_PROGRESS \<and>
         current_gear ss = target_gear ss"
    by (cases "shift_state g") (simp_all add: defs split: if_splits)
  show "total_shifts ss = total_shifts g \<Longrightarrow> last_shift_time ss = last_shift_time g"
    by (cases "shift_state g") (simp_all add: defs split: if_splits)
  show "total_shifts ss = total_shifts g \<Longrightarrow> shift_state ss = SHIFT_REQUESTED \<Longrightarrow>
         shift_state g = SHIFT_REQUESTED \<or>
         shift_state g = SHIFT_STABLE \<and> now - last_shift_time g > SHIFT_INHIBIT_TIME"
    by (cases "shift_state g") (simp_all add: defs split: if_splits)
qed


section \<open>One pass of the loop\<close>

lemma loop_frame:
  "\<exists>a e d p q. loop g i =
      (shiftSwitch (sens i) (clk i) (g\<lparr>power_mode := mode_switch i\<rparr>))
        \<lparr>accumulator_duty := a, lockup_engaged := e, lockup_duty := d,
         sln_pwm := p, slu_pwm := q\<rparr>"
  unfolding loop_def by (rule processShiftLogic_frame)

lemma loop_fired:
  assumes "total_shifts (loop g i) \<noteq> total_shifts g"
  shows "shift_state g = SHIFT_REQUESTED"
    and "last_shift_time (loop g i) = millis (t_exec (clk i))"
    and "shift_state (loop g i) = SHIFT_IN_PROGRESS"
proof -
  let ?g = "g\<lparr>power_mode := mode_switch i\<rparr>"
  obtain a e d p q where fr: "loop g i =
      (shiftSwitch (sens i) (clk i) ?g)
        \<lparr>accumulator_duty := a, lockup_engaged := e, lockup_duty := d,
         sln_pwm := p, slu_pwm := q\<rparr>"
    using loop_frame by blast
  from assms have ne: "total_shifts (shiftSwitch (sens i) (clk i) ?g) \<noteq> total_shifts ?g"
    by (simp add: fr)
  from ne shiftSwitch_fires_iff [of "sens i" "clk i" ?g]
  show "shift_state g = SHIFT_REQUESTED"
    by simp
  from shiftSwitch_fired [OF ne]
  show "last_shift_time (loop g i) = millis (t_exec (clk i))"
    and "shift_state (loop g i) = SHIFT_IN_PROGRESS"
    by (simp_all add: fr)
qed

lemma loop_not_fired:
  assumes "total_shifts (loop g i) = total_shifts g"
  shows "last_shift_time (loop g i) = last_shift_time g"
    and "shift_state (loop g i) = SHIFT_REQUESTED \<Longrightarrow>
         shift_state g = SHIFT_REQUESTED \<or>
         shift_state g = SHIFT_STABLE \<and>
         millis (t_tick (clk i)) - last_shift_time g > SHIFT_INHIBIT_TIME"
proof -
  let ?g = "g\<lparr>power_mode := mode_switch i\<rparr>"
  obtain a e d p q where fr: "loop g i =
      (shiftSwitch (sens i) (clk i) ?g)
        \<lparr>accumulator_duty := a, lockup_engaged := e, lockup_duty := d,
         sln_pwm := p, slu_pwm := q\<rparr>"
    using loop_frame by blast
  from assms have eq: "total_shifts (shiftSwitch (sens i) (clk i) ?g) = total_shifts ?g"
    by (simp add: fr)
  from shiftSwitch_not_fired [OF eq]
  show "last_shift_time (loop g i) = last_shift_time g"
    by (simp add: fr)
  assume "shift_state (loop g i) = SHIFT_REQUESTED"
  then have "shift_state (shiftSwitch (sens i) (clk i) ?g) = SHIFT_REQUESTED"
    by (simp add: fr)
  from shiftSwitch_requested [OF eq this]
  show "shift_state g = SHIFT_REQUESTED \<or>
         shift_state g = SHIFT_STABLE \<and>
         millis (t_tick (clk i)) - last_shift_time g > SHIFT_INHIBIT_TIME"
    by simp
qed

lemma millis_elapsed:
  assumes "l \<le> t" and "millis t - millis l > SHIFT_INHIBIT_TIME"
  shows "l + 800 < t"
proof -
  have "millis t - millis l = (of_nat (t - l) :: 32 word)"
    using assms(1) by (simp add: millis_def)
  then have "unat (millis t - millis l) \<le> t - l"
    by (simp add: unat_of_nat)
  moreover have "800 < unat (millis t - millis l)"
    using assms(2) by (simp add: SHIFT_INHIBIT_TIME_def word_less_nat_alt)
  ultimately show ?thesis by linarith
qed


section \<open>Spacing of shifts\<close>

text \<open>
  If \<open>executeShift\<close> last ran at time \<open>l\<close>, every later invocation comes more than 800 ms
  after it: the machine can only be in \<open>SHIFT_REQUESTED\<close> once the inhibit test has passed,
  and the 32-bit difference the test reads never exceeds the time really elapsed.
\<close>

lemma shift_times_after:
  "clock_mono T is \<Longrightarrow> l \<le> T \<Longrightarrow> last_shift_time g = millis l \<Longrightarrow>
   shift_state g \<noteq> SHIFT_REQUESTED \<or> l + 800 < T \<Longrightarrow>
   successively (\<lambda>a b. a + 800 < b) (l # shift_times g is)"
proof (induction "is" arbitrary: T l g)
  case Nil
  then show ?case by simp
next
  case (Cons i "is")
  let ?g' = "loop g i"
  from Cons.prems(1) have mono: "T \<le> t_tick (clk i)" "t_tick (clk i) \<le> t_exec (clk i)"
    "t_exec (clk i) \<le> t_learn (clk i)" "clock_mono (t_learn (clk i)) is"
    by auto
  show ?case
  proof (cases "total_shifts ?g' \<noteq> total_shifts g")
    case True
    note fired = loop_fired [OF True]
    from fired(1) Cons.prems(4) have "l + 800 < T" by simp
    with mono have gap: "l + 800 < t_exec (clk i)" by linarith
    have "successively (\<lambda>a b. a + 800 < b) (t_exec (clk i) # shift_times ?g' is)"
      using Cons.IH [OF mono(4) mono(3) fired(2)] fired(3) by simp
    with gap True show ?thesis by simp
  next
    case False
    then have same: "total_shifts ?g' = total_shifts g" by simp
    have last: "last_shift_time ?g' = millis l"
      using loop_not_fired(1) [OF same] Cons.prems(3) by simp
    have bound: "l \<le> t_learn (clk i)"
      using Cons.prems(2) mono by linarith
    have req: "shift_state ?g' \<noteq> SHIFT_REQUESTED \<or> l + 800 < t_learn (clk i)"
    proof (cases "shift_state ?g' = SHIFT_REQUESTED")
      case False
      then show ?thesis by simp
    next
      case True
      from loop_not_fired(2) [OF same True]
      consider "shift_state g = SHIFT_REQUESTED"
        | "millis (t_tick (clk i)) - last_shift_time g > SHIFT_INHIBIT_TIME"
        by blast
      then have "l + 800 < t_learn (clk i)"
      proof cases
        case 1
        with Cons.prems(4) have "l + 800 < T" by simp
        with mono show ?thesis by linarith
      next
        case 2
        have "l \<le> t_tick (clk i)" using Cons.prems(2) mono(1) by linarith
        from millis_elapsed [OF this] 2 Cons.prems(3)
        have "l + 800 < t_tick (clk i)" by simp
        with mono show ?thesis by linarith
      qed
      then show ?thesis by simp
    qed
    from Cons.IH [OF mono(4) bound last req] same show ?thesis by simp
  qed
qed


section \<open>Accumulator duty\<close>

lemma constrain_clamp_spec: "constrain x 15 85 = clamp_spec x 15 85"
  by (simp add: constrain_def clamp_spec_def max_def min_def)

lemma shift_index_range: "(0 \<le> t - 2 \<and> t - 2 < 3) = (t \<in> {2, 3, 4 :: int})"
  by auto

lemma calculateAccumulatorDuty_eq:
  "calculateAccumulatorDuty sn g =
     clamp_spec (acc_base_spec sn g + temp_comp_spec (fluid_temp_c sn)) 15 85"
proof -
  have "calculateAccumulatorDuty sn g =
      constrain (acc_base_spec sn g + temp_comp_spec (fluid_temp_c sn)) 15 85"
  proof (cases "shift_state g = SHIFT_IN_PROGRESS")
    case True
    then show ?thesis
      unfolding calculateAccumulatorDuty_def acc_base_spec_def Let_def shift_index_range
      by (simp add: temp_comp_spec_def const_defs)
  next
    case False
    then show ?thesis
      unfolding calculateAccumulatorDuty_def acc_base_spec_def Let_def
      by (simp add: temp_comp_spec_def const_defs)
  qed
  then show ?thesis by (simp add: constrain_clamp_spec)
qed

lemma calculateAccumulatorDuty_range:
  "15 \<le> calculateAccumulatorDuty sn g \<and> calculateAccumulatorDuty sn g \<le> 85"
  by (simp add: calculateAccumulatorDuty_def constrain_def Let_def)

lemma processShiftLogic_accumulator_duty:
  "accumulator_duty (processShiftLogic sn ck g) = calculateAccumulatorDuty sn (shiftSwitch sn ck g)"
  by (simp add: processShiftLogic_def Let_def split_beta setLockup_def setAccumulator_def
      calculateLockupDuty_def)


section \<open>Gears and trims along an episode\<close>

text \<open>
  \<open>executeShift\<close> copies the target into \<open>current_gear\<close>, and nothing changes either
  gear until the machine is back in \<open>SHIFT_STABLE\<close>. So at the edge from
  \<open>SHIFT_COMPLETING\<close> the test \<open>target_gear <= current_gear\<close> at the top of
  \<open>updateAdaptiveLearning\<close> holds, and neither the trims nor the counters are written.
\<close>

lemma updateAdaptiveLearning_not_upshift:
  "target_gear g \<le> current_gear g \<Longrightarrow> updateAdaptiveLearning sn ck g = g"
  by (simp add: updateAdaptiveLearning_def)

lemma shiftSwitch_episode:
  fixes sn ck g
  defines "ss \<equiv> shiftSwitch sn ck g"
  assumes epi: "episode_gears_agree g"
  shows shiftSwitch_gears_agree: "episode_gears_agree ss"
    and shiftSwitch_offsets: "shift_quality_offset ss = shift_quality_offset g"
    and shiftSwitch_counts: "shift_count ss = shift_count g"
    and shiftSwitch_stable:
      "shift_state ss = SHIFT_STABLE \<Longrightarrow>
         current_gear ss = target_gear ss \<or>
         shift_state g = SHIFT_STABLE \<and>
           millis (t_tick ck) - last_shift_time g \<le> SHIFT_INHIBIT_TIME \<or>
         shift_state g = SHIFT_REQUESTED"
proof -
  obtain k a b where dt: "snd (determineTargetGear sn ck g) =
      g\<lparr>kickdown_active := k, throttle_change_time := a, last_throttle := b\<rparr>"
    using determineTargetGear_frame by blast
  have ua: "shift_state g = SHIFT_COMPLETING \<Longrightarrow>
      updateAdaptiveLearning sn ck (g\<lparr>shift_state := SHIFT_STABLE\<rparr>) =
      g\<lparr>shift_state := SHIFT_STABLE\<rparr>"
    using epi by (simp add: updateAdaptiveLearning_not_upshift episode_gears_agree_def)
  note defs = ss_def shiftSwitch_def Let_def split_beta dt ua executeShift_def
    episode_gears_agree_def
  show "episode_gears_agree ss"
    using epi by (cases "shift_state g") (simp_all add: defs)
  show "shift_quality_offset ss = shift_quality_offset g"
    by (cases "shift_state g") (simp_all add: defs)
  show "shift_count ss = shift_count g"
    by (cases "shift_state g") (simp_all add: defs)
  show "shift_state ss = SHIFT_STABLE \<Longrightarrow>
         current_gear ss = target_gear ss \<or>
         shift_state g = SHIFT_STABLE \<and>
           millis (t_tick ck) - last_shift_time g \<le> SHIFT_INHIBIT_TIME \<or>
         shift_state g = SHIFT_REQUESTED"
    using epi by (cases "shift_state g") (auto simp add: defs split: if_splits)
qed

lemma loop_episode:
  assumes epi: "episode_gears_agree g"
  shows loop_gears_agree: "episode_gears_agree (loop g i)"
    and loop_offsets: "shift_quality_offset (loop g i) = shift_quality_offset g"
    and loop_counts: "shift_count (loop g i) = shift_count g"
    and loop_stable:
      "shift_state (loop g i) = SHIFT_STABLE \<Longrightarrow>
         current_gear (loop g i) = target_gear (loop g i) \<or>
         shift_state g = SHIFT_STABLE \<and>
           millis (t_tick (clk i)) - last_shift_time g \<le> SHIFT_INHIBIT_TIME \<or>
         shift_state g = SHIFT_REQUESTED"
proof -
  let ?g = "g\<lparr>power_mode := mode_switch i\<rparr>"
  obtain a e d p q where fr: "loop g i =
      (shiftSwitch (sens i) (clk i) ?g)
        \<lparr>accumulator_duty := a, lockup_engaged := e, lockup_duty := d,
         sln_pwm := p, slu_pwm := q\<rparr>"
    using loop_frame by blast
  from epi have epi': "episode_gears_agree ?g"
    by (simp add: episode_gears_agree_def)
  from shiftSwitch_gears_agree [OF epi', of "sens i" "clk i"]
  show "episode_gears_agree (loop g i)"
    by (simp add: fr episode_gears_agree_def)
  from shiftSwitch_offsets [OF epi', of "sens i" "clk i"]
  show "shift_quality_offset (loop g i) = shift_quality_offset g"
    by (simp add: fr)
  from shiftSwitch_counts [OF epi', of "sens i" "clk i"]
  show "shift_count (loop g i) = shift_count g"
    by (simp add: fr)
  assume "shift_state (loop g i) = SHIFT_STABLE"
  then have "shift_state (shiftSwitch (sens i) (clk i) ?g) = SHIFT_STABLE"
    by (simp add: fr)
  from shiftSwitch_stable [OF epi' this]
  show "current_gear (loop g i) = target_gear (loop g i) \<or>
         shift_state g = SHIFT_STABLE \<and>
           millis (t_tick (clk i)) - last_shift_time g \<le> SHIFT_INHIBIT_TIME \<or>
         shift_state g = SHIFT_REQUESTED"
    by (simp add: fr)
qed

lemma run_episode:
  "episode_gears_agree g \<Longrightarrow>
   episode_gears_agree (run g is) \<and>
   shift_quality_offset (run g is) = shift_quality_offset g \<and>
   shift_count (run g is) = shift_count g"
proof (induction "is" arbitrary: g)
  case Nil
  then show ?case by (simp add: run_def)
next
  case (Cons i "is")
  from loop_episode(1-3) [OF Cons.prems, of i] Cons.IH [of "loop g i"]
  show ?case by (simp add: run_def)
qed

lemma initTransmission_gears_agree: "episode_gears_agree initTransmission"
  by (simp add: episode_gears_agree_def initTransmission_def)

lemma learning_never_runs:
  "shift_quality_offset (run initTransmission is) = Int3 0 0 0 \<and>
   shift_count (run initTransmission is) = Int3 0 0 0"
  using run_episode [OF initTransmission_gears_agree, of "is"]
  by (simp add: initTransmission_def)


section \<open>The gear selector\<close>

lemma determineTargetGear_fst:
  "fst (determineTargetGear sn ck g) =
     (if limp_mode g then 3
      else if fst (isKickdownRequested sn ck g) \<and> current_gear g = 4 \<and>
              vehicle_speed_kmh sn < KICKDOWN_4_3_SPEED then 3
      else if fst (isKickdownRequested sn ck g) \<and> current_gear g = 3 \<and>
              vehicle_speed_kmh sn < KICKDOWN_3_2_SPEED then 2
      else if fst (isKickdownRequested sn ck g) \<and> current_gear g = 2 \<and>
              vehicle_speed_kmh sn < KICKDOWN_2_1_SPEED then 1
      else scheduleGear sn g
             (if \<not> overdrive_enabled sn \<and> current_gear g > 3 then 3 else current_gear g))"
proof -
  obtain a b where kd: "snd (isKickdownRequested sn ck g) =
      g\<lparr>throttle_change_time := a, last_throttle := b\<rparr>"
    using isKickdownRequested_frame by blast
  have sched: "scheduleGear sn (g\<lparr>throttle_change_time := a, last_throttle := b,
      kickdown_active := k\<rparr>) t = scheduleGear sn g t" for k t
    by (simp add: scheduleGear_def Let_def cong: if_cong)
  show ?thesis
    by (simp add: determineTargetGear_def Let_def split_beta kd sched)
qed

lemma scheduleGear_no_overdrive:
  "\<not> overdrive_enabled sn \<Longrightarrow> t \<le> 3 \<Longrightarrow> scheduleGear sn g t \<le> 3"
  by (simp add: scheduleGear_def Let_def)

lemma scheduleGear_fourth:
  "\<not> overdrive_enabled sn \<Longrightarrow> current_gear g = 4 \<Longrightarrow> scheduleGear sn g 3 = 3"
  by (simp add: scheduleGear_def Let_def)

lemma scheduleGear_invalid:
  "current_gear g \<notin> {1, 2, 3, 4} \<Longrightarrow> scheduleGear sn g t = t"
  by (simp add: scheduleGear_def Let_def)

lemma determineTargetGear_no_overdrive:
  "\<not> overdrive_enabled sn \<Longrightarrow> fst (determineTargetGear sn ck g) \<le> 3"
  by (simp add: determineTargetGear_fst scheduleGear_no_overdrive)

lemma determineTargetGear_fourth:
  "\<not> overdrive_enabled sn \<Longrightarrow> current_gear g = 4 \<Longrightarrow> fst (determineTargetGear sn ck g) = 3"
  by (simp add: determineTargetGear_fst scheduleGear_fourth)

lemma determineTargetGear_invalid:
  "\<not> limp_mode g \<Longrightarrow> current_gear g \<notin> {1, 2, 3, 4} \<Longrightarrow>
   fst (determineTargetGear sn ck g) =
     (if \<not> overdrive_enabled sn \<and> current_gear g > 3 then 3 else current_gear g)"
  by (simp add: determineTargetGear_fst scheduleGear_invalid)

lemma processShiftLogic_current_gear:
  "shift_state g \<noteq> SHIFT_REQUESTED \<Longrightarrow>
   current_gear (processShiftLogic sn ck g) = current_gear g"
proof -
  assume st: "shift_state g \<noteq> SHIFT_REQUESTED"
  obtain a e d p q where "processShiftLogic sn ck g =
      (shiftSwitch sn ck g)\<lparr>accumulator_duty := a, lockup_engaged := e, lockup_duty := d,
         sln_pwm := p, slu_pwm := q\<rparr>"
    using processShiftLogic_frame by blast
  then show ?thesis by (simp add: shiftSwitch_current_gear [OF st])
qed

lemma processShiftLogic_limp_mode:
  "limp_mode (processShiftLogic sn ck g) = limp_mode g"
proof -
  obtain a e d p q where "processShiftLogic sn ck g =
      (shiftSwitch sn ck g)\<lparr>accumulator_duty := a, lockup_engaged := e, lockup_duty := d,
         sln_pwm := p, slu_pwm := q\<rparr>"
    using processShiftLogic_frame by blast
  then show ?thesis by (simp add: shiftSwitch_limp_mode)
qed

text \<open>
  While a request waits for its delay the switch does nothing, so \<open>current_gear\<close> can only
  change in a pass that starts in \<open>SHIFT_REQUESTED\<close> with the delay over.
\<close>

lemma shiftSwitch_waiting:
  "shift_state g = SHIFT_REQUESTED \<Longrightarrow> millis (t_tick ck) - shift_start_time g \<le> SHIFT_DELAY \<Longrightarrow>
   shiftSwitch sn ck g = g"
  by (simp add: shiftSwitch_def Let_def not_less [symmetric])

lemma processShiftLogic_current_gear_kept:
  assumes "shift_state g \<noteq> SHIFT_REQUESTED \<or>
           millis (t_tick ck) - shift_start_time g \<le> SHIFT_DELAY"
  shows "current_gear (processShiftLogic sn ck g) = current_gear g"
proof (cases "shift_state g = SHIFT_REQUESTED")
  case False
  then show ?thesis by (rule processShiftLogic_current_gear)
next
  case True
  with assms have "shiftSwitch sn ck g = g"
    by (simp add: shiftSwitch_waiting)
  moreover obtain a e d p q where "processShiftLogic sn ck g =
      (shiftSwitch sn ck g)\<lparr>accumulator_duty := a, lockup_engaged := e, lockup_duty := d,
         sln_pwm := p, slu_pwm := q\<rparr>"
    using processShiftLogic_frame by blast
  ultimately show ?thesis by simp
qed

text \<open>
  The two edges that take a controller out of a gear: the request, once the inhibit
  window is over, and the re-check, once the request delay is over. With the overdrive
  switch off the re-check of a downshift from fourth to third always agrees, and no
  shift can end in fourth gear.
\<close>

lemma shiftSwitch_edges:
  fixes sn ck g
  defines "ss \<equiv> shiftSwitch sn ck g"
    and "now \<equiv> millis (t_tick ck)"
    and "tg \<equiv> fst (determineTargetGear sn ck g)"
  shows shiftSwitch_recheck:
      "shift_state g = SHIFT_REQUESTED \<Longrightarrow> now - shift_start_time g > SHIFT_DELAY \<Longrightarrow>
         current_gear ss = (if tg = target_gear g then target_gear g else current_gear g) \<and>
         shift_state ss = (if tg = target_gear g then SHIFT_IN_PROGRESS else SHIFT_STABLE)"
    and shiftSwitch_request:
      "shift_state g = SHIFT_STABLE \<Longrightarrow> tg \<noteq> current_gear g \<Longrightarrow>
       now - last_shift_time g > SHIFT_INHIBIT_TIME \<Longrightarrow>
         shift_state ss = SHIFT_REQUESTED \<and> shift_start_time ss = now"
proof -
  obtain k a b where dt: "snd (determineTargetGear sn ck g) =
      g\<lparr>kickdown_active := k, throttle_change_time := a, last_throttle := b\<rparr>"
    using determineTargetGear_frame by blast
  note defs = ss_def now_def tg_def shiftSwitch_def Let_def split_beta dt executeShift_def
  show "shift_state g = SHIFT_REQUESTED \<Longrightarrow> now - shift_start_time g > SHIFT_DELAY \<Longrightarrow>
         current_gear ss = (if tg = target_gear g then target_gear g else current_gear g) \<and>
         shift_state ss = (if tg = target_gear g then SHIFT_IN_PROGRESS else SHIFT_STABLE)"
    by (simp add: defs)
  show "shift_state g = SHIFT_STABLE \<Longrightarrow> tg \<noteq> current_gear g \<Longrightarrow>
       now - last_shift_time g > SHIFT_INHIBIT_TIME \<Longrightarrow>
         shift_state ss = SHIFT_REQUESTED \<and> shift_start_time ss = now"
    by (simp add: defs)
qed

lemma processShiftLogic_recheck:
  assumes "shift_state g = SHIFT_REQUESTED"
    and "millis (t_tick ck) - shift_start_time g > SHIFT_DELAY"
  shows "current_gear (processShiftLogic sn ck g) =
           (if fst (determineTargetGear sn ck g) = target_gear g then target_gear g
            else current_gear g)"
    and "shift_state (processShiftLogic sn ck g) =
           (if fst (determineTargetGear sn ck g) = target_gear g then SHIFT_IN_PROGRESS
            else SHIFT_STABLE)"
proof -
  obtain a e d p q where fr: "processShiftLogic sn ck g =
      (shiftSwitch sn ck g)\<lparr>accumulator_duty := a, lockup_engaged := e, lockup_duty := d,
         sln_pwm := p, slu_pwm := q\<rparr>"
    using processShiftLogic_frame by blast
  from shiftSwitch_recheck [OF assms, of sn]
  show "current_gear (processShiftLogic sn ck g) =
           (if fst (determineTargetGear sn ck g) = target_gear g then target_gear g
            else current_gear g)"
    and "shift_state (processShiftLogic sn ck g) =
           (if fst (determineTargetGear sn ck g) = target_gear g then SHIFT_IN_PROGRESS
            else SHIFT_STABLE)"
    by (simp_all add: fr)
qed

lemma processShiftLogic_request:
  assumes "shift_state g = SHIFT_STABLE"
    and "fst (determineTargetGear sn ck g) \<noteq> current_gear g"
    and "millis (t_tick ck) - last_shift_time g > SHIFT_INHIBIT_TIME"
  shows "shift_state (processShiftLogic sn ck g) = SHIFT_REQUESTED"
    and "shift_start_time (processShiftLogic sn ck g) = millis (t_tick ck)"
proof -
  obtain a e d p q where fr: "processShiftLogic sn ck g =
      (shiftSwitch sn ck g)\<lparr>accumulator_duty := a, lockup_engaged := e, lockup_duty := d,
         sln_pwm := p, slu_pwm := q\<rparr>"
    using processShiftLogic_frame by blast
  from shiftSwitch_request [OF assms]
  show "shift_state (processShiftLogic sn ck g) = SHIFT_REQUESTED"
    and "shift_start_time (processShiftLogic sn ck g) = millis (t_tick ck)"
    by (simp_all add: fr)
qed

lemma no_overdrive_stays_below_fourth:
  assumes od: "\<not> overdrive_enabled sn" and low: "current_gear g \<le> 3"
  shows "current_gear (processShiftLogic sn ck g) \<le> 3"
proof (cases "shift_state g \<noteq> SHIFT_REQUESTED \<or>
    millis (t_tick ck) - shift_start_time g \<le> SHIFT_DELAY")
  case True
  from processShiftLogic_current_gear_kept [OF True] low show ?thesis by simp
next
  case False
  then have req: "shift_state g = SHIFT_REQUESTED"
    and late: "millis (t_tick ck) - shift_start_time g > SHIFT_DELAY"
    by (simp_all add: not_le)
  from determineTargetGear_no_overdrive [OF od, of ck g] low
  show ?thesis
    by (simp add: processShiftLogic_recheck(1) [OF req late])
qed

lemma no_overdrive_leaves_fourth:
  assumes od: "\<not> overdrive_enabled sn"
    and req: "shift_state g = SHIFT_REQUESTED"
    and gears: "current_gear g = 4" "target_gear g = 3"
    and late: "millis (t_tick ck) - shift_start_time g > SHIFT_DELAY"
  shows "current_gear (processShiftLogic sn ck g) = 3"
    and "shift_state (processShiftLogic sn ck g) = SHIFT_IN_PROGRESS"
  using determineTargetGear_fourth [OF od gears(1), of ck] gears
  by (simp_all add: processShiftLogic_recheck [OF req late])

lemma no_overdrive_run_below_fourth:
  "list_all (\<lambda>i. \<not> overdrive_enabled (sens i)) is \<Longrightarrow> current_gear g \<le> 3 \<Longrightarrow>
   current_gear (run g is) \<le> 3"
proof (induction "is" arbitrary: g)
  case Nil
  then show ?case by (simp add: run_def)
next
  case (Cons i "is")
  from Cons.prems have od: "\<not> overdrive_enabled (sens i)"
    and rest: "list_all (\<lambda>i. \<not> overdrive_enabled (sens i)) is"
    by simp_all
  have "current_gear (loop g i) \<le> 3"
    unfolding loop_def
    using no_overdrive_stays_below_fourth [OF od, of "g\<lparr>power_mode := mode_switch i\<rparr>"]
      Cons.prems(2) by simp
  from Cons.IH [OF rest this] show ?case by (simp add: run_def)
qed

section \<open>Lockup duty\<close>

lemma calculateLockupDuty_band:
  "\<not> must_unlock sn g \<Longrightarrow> \<not> can_lockup sn g \<Longrightarrow> calculateLockupDuty sn g = (0, g)"
  by (simp add: calculateLockupDuty_def)

section \<open>The sample drive, evaluated\<close>

lemmas model_defs =
  run_def loop_def processShiftLogic_def shiftSwitch_def determineTargetGear_def
  scheduleGear_def isKickdownRequested_def executeShift_def calculateAccumulatorDuty_def
  calculateLockupDuty_def must_unlock_def can_lockup_def updateAdaptiveLearning_def
  setLockup_def setAccumulator_def getShiftPoint_def map_range_def c_div_def constrain_def
  millis_def const_defs

lemmas input_defs = pass_def at_ms_def cruise_def snapshot_def

lemma run_append: "run g (xs @ ys) = run (run g xs) ys"
  by (simp add: run_def)

lemma shift_times_append:
  "shift_times g (xs @ ys) = shift_times g xs @ shift_times (run g xs) ys"
  by (induction xs arbitrary: g) (simp_all add: run_def)

lemma first_episode: "run initTransmission upshift_1_2 = in_second"
  by (simp add: upshift_1_2_def in_second_def initTransmission_def input_defs model_defs)

lemma second_episode: "run in_second upshift_2_3 = in_third"
  by (simp add: upshift_2_3_def in_second_def in_third_def input_defs model_defs)


lemma first_episode_times: "shift_times initTransmission upshift_1_2 = [3160]"
  by (simp add: upshift_1_2_def initTransmission_def input_defs model_defs)

lemma second_episode_times: "shift_times in_second upshift_2_3 = [4160]"
  by (simp add: upshift_2_3_def in_second_def input_defs model_defs)


text \<open>
  Right after the first episode the car has reached 50 km/h, enough for third gear, but
  the last shift is only 580 ms old: the request is blocked, pass after pass.
\<close>

lemma blocked_pass:
  "loop in_second (pass 3740 (cruise 50 True)) = in_second\<lparr>target_gear := 3\<rparr>"
  by (simp add: in_second_def input_defs model_defs)

lemma blocked_pass_again:
  "loop (in_second\<lparr>target_gear := 3\<rparr>) (pass 3760 (cruise 50 True)) =
     in_second\<lparr>target_gear := 3\<rparr>"
  by (simp add: in_second_def input_defs model_defs)

text \<open>
  In third gear at 65 km/h the lockup clutch is engaged; at 55 km/h, inside the band
  between the two speed thresholds, the duty drops to zero.
\<close>

lemma lockup_pass:
  "loop in_third (pass 4740 (cruise 65 True)) =
     in_third\<lparr>lockup_engaged := True, lockup_duty := 75, slu_pwm := 767\<rparr>"
  by (simp add: in_third_def input_defs model_defs)

lemma band_pass:
  "loop (in_third\<lparr>lockup_engaged := True, lockup_duty := 75, slu_pwm := 767\<rparr>)
     (pass 4760 (cruise 55 True)) =
     in_third\<lparr>lockup_engaged := True, lockup_duty := 0, slu_pwm := 0\<rparr>"
  by (simp add: in_third_def input_defs model_defs)

lemma band_pass_in_band:
  "\<not> must_unlock (cruise 55 True)
       (in_third\<lparr>lockup_engaged := True, lockup_duty := 75, slu_pwm := 767\<rparr>) \<and>
   \<not> can_lockup (cruise 55 True)
       (in_third\<lparr>lockup_engaged := True, lockup_duty := 75, slu_pwm := 767\<rparr>)"
  by (simp add: must_unlock_def can_lockup_def in_third_def cruise_def snapshot_def const_defs)



text \<open>
  The first pass of the drive requests second gear. If limp mode is latched before the
  re-check, the re-check disagrees with the request and the machine falls back to
  \<open>SHIFT_STABLE\<close>.
\<close>

lemma request_pass:
  "loop initTransmission (pass 3000 (cruise 25 True)) =
     initTransmission\<lparr>target_gear := 2, shift_state := SHIFT_REQUESTED,
       shift_start_time := 3000, last_throttle := 30, throttle_change_time := 3000,
       sln_pwm := 511\<rparr>"
  by (simp add: initTransmission_def input_defs model_defs)

lemma limp_recheck_pass:
  "processShiftLogic (cruise 25 True) (at_ms 3160)
     (initTransmission\<lparr>target_gear := 2, shift_state := SHIFT_REQUESTED,
        shift_start_time := 3000, last_throttle := 30, throttle_change_time := 3000,
        sln_pwm := 511, limp_mode := True\<rparr>) =
   initTransmission\<lparr>target_gear := 2, shift_state := SHIFT_STABLE,
        shift_start_time := 3000, last_throttle := 30, throttle_change_time := 3000,
        sln_pwm := 511, limp_mode := True\<rparr>"
  by (simp add: initTransmission_def input_defs model_defs)

text \<open>A pass that starts in a gear that does not exist.\<close>

lemma fifth_gear_pass:
  "processShiftLogic (cruise 25 True) (at_ms 3000)
     (initTransmission\<lparr>current_gear := 5, target_gear := 5\<rparr>) =
   initTransmission\<lparr>current_gear := 5, target_gear := 5, last_throttle := 30,
     throttle_change_time := 3000, sln_pwm := 511\<rparr>"
  by (simp add: initTransmission_def input_defs model_defs)

section \<open>The claims\<close>

text \<open>
  Claim C1 (the code departs from it). The claim expects the first upshift of the sample
  drive, from first to second gear without kickdown at 30 percent throttle, measured at
  720 ms, to lower \<open>shift_quality_offset[0]\<close> by 2 and to raise \<open>shift_count[0]\<close> to 1. In
  the code both stay at zero: when the episode ends \<open>current_gear\<close> already equals
  \<open>target_gear\<close>, and \<open>updateAdaptiveLearning\<close> returns at its first test. Lemma
  \<open>learning_never_runs\<close> shows the same for every execution.
\<close>

theorem first_upshift_learns_nothing:
  "shift_state (run initTransmission upshift_1_2) = SHIFT_STABLE \<and>
   current_gear (run initTransmission upshift_1_2) = 2 \<and>
   total_shifts (run initTransmission upshift_1_2) = 1 \<and>
   kickdown_active (run initTransmission upshift_1_2) = False \<and>
   shift_quality_offset (run initTransmission upshift_1_2) = Int3 0 0 0 \<and>
   shift_count (run initTransmission upshift_1_2) = Int3 0 0 0"
  by (simp add: first_episode in_second_def)

text \<open>
  Claim C2, amended. In every execution from \<open>initTransmission\<close>, a pass that ends in
  \<open>SHIFT_STABLE\<close> ends with \<open>current_gear = target_gear\<close>, unless it started in
  \<open>SHIFT_STABLE\<close> with the inhibit window still open
  (\<open>current_time - last_shift_time <= 800\<close>), or it started in \<open>SHIFT_REQUESTED\<close> (and
  dropped the request at the re-check).
\<close>

theorem stable_gears_agree_unless_blocked:
  assumes "g = run initTransmission is"
    and "shift_state (loop g i) = SHIFT_STABLE"
  shows "current_gear (loop g i) = target_gear (loop g i) \<or>
         shift_state g = SHIFT_STABLE \<and>
           millis (t_tick (clk i)) - last_shift_time g \<le> SHIFT_INHIBIT_TIME \<or>
         shift_state g = SHIFT_REQUESTED"
proof -
  have "episode_gears_agree g"
    using run_episode [OF initTransmission_gears_agree, of "is"] assms(1) by simp
  from loop_stable [OF this assms(2)] show ?thesis .
qed


text \<open>
  The amended statement at the pass that follows the first episode of the sample drive:
  it ends in \<open>SHIFT_STABLE\<close>, blocked by the inhibit window.
\<close>

theorem stable_gears_agree_unless_blocked_witness:
  "shift_state (loop (run initTransmission upshift_1_2) (pass 3740 (cruise 50 True))) = SHIFT_STABLE \<and>
   (current_gear (loop (run initTransmission upshift_1_2) (pass 3740 (cruise 50 True))) =
      target_gear (loop (run initTransmission upshift_1_2) (pass 3740 (cruise 50 True))) \<or>
    shift_state (run initTransmission upshift_1_2) = SHIFT_STABLE \<and>
      millis (t_tick (clk (pass 3740 (cruise 50 True)))) -
        last_shift_time (run initTransmission upshift_1_2) \<le> SHIFT_INHIBIT_TIME \<or>
    shift_state (run initTransmission upshift_1_2) = SHIFT_REQUESTED)"
proof -
  have st: "shift_state (loop (run initTransmission upshift_1_2) (pass 3740 (cruise 50 True))) =
      SHIFT_STABLE"
    by (simp only: first_episode blocked_pass) (simp add: in_second_def)
  from stable_gears_agree_unless_blocked [OF refl st] st show ?thesis by simp
qed

text \<open>
  Claim C2 as stated fails: 20 ms and 40 ms after the first episode the machine is in
  \<open>SHIFT_STABLE\<close> at the end of the pass with \<open>current_gear = 2\<close> and \<open>target_gear = 3\<close>.
\<close>

theorem stable_disagreement_persists:
  "shift_state (run initTransmission (upshift_1_2 @ [pass 3740 (cruise 50 True)])) = SHIFT_STABLE \<and>
   current_gear (run initTransmission (upshift_1_2 @ [pass 3740 (cruise 50 True)])) = 2 \<and>
   target_gear (run initTransmission (upshift_1_2 @ [pass 3740 (cruise 50 True)])) = 3 \<and>
   shift_state (run initTransmission
     (upshift_1_2 @ [pass 3740 (cruise 50 True), pass 3760 (cruise 50 True)])) = SHIFT_STABLE \<and>
   current_gear (run initTransmission
     (upshift_1_2 @ [pass 3740 (cruise 50 True), pass 3760 (cruise 50 True)])) = 2 \<and>
   target_gear (run initTransmission
     (upshift_1_2 @ [pass 3740 (cruise 50 True), pass 3760 (cruise 50 True)])) = 3"
proof -
  have "run in_second [pass 3740 (cruise 50 True)] = in_second\<lparr>target_gear := 3\<rparr>"
    by (simp add: run_def blocked_pass)
  moreover have "run in_second [pass 3740 (cruise 50 True), pass 3760 (cruise 50 True)] =
      in_second\<lparr>target_gear := 3\<rparr>"
    by (simp add: run_def blocked_pass blocked_pass_again)
  ultimately show ?thesis
    by (simp add: run_append first_episode in_second_def)
qed

text \<open>
  Claim C3 (the code departs from it). In the band where neither \<open>must_unlock\<close> nor
  \<open>can_lockup\<close> holds, \<open>calculateLockupDuty\<close> returns 0 but does not write
  \<open>lockup_engaged\<close> (lemma \<open>calculateLockupDuty_band\<close>). In the sample drive the clutch is
  engaged in third gear at 65 km/h; one pass later, at 55 km/h and inside the band (lemma
  \<open>band_pass_in_band\<close>), the duty is 0 and the flag still says engaged.
\<close>

theorem lockup_flag_stale_in_band:
  "lockup_engaged (run initTransmission
     (upshift_1_2 @ upshift_2_3 @ [pass 4740 (cruise 65 True)])) = True \<and>
   lockup_duty (run initTransmission
     (upshift_1_2 @ upshift_2_3 @ [pass 4740 (cruise 65 True)])) = 75 \<and>
   shift_state (run initTransmission
     (upshift_1_2 @ upshift_2_3 @ [pass 4740 (cruise 65 True), pass 4760 (cruise 55 True)])) =
     SHIFT_STABLE \<and>
   current_gear (run initTransmission
     (upshift_1_2 @ upshift_2_3 @ [pass 4740 (cruise 65 True), pass 4760 (cruise 55 True)])) = 3 \<and>
   lockup_duty (run initTransmission
     (upshift_1_2 @ upshift_2_3 @ [pass 4740 (cruise 65 True), pass 4760 (cruise 55 True)])) = 0 \<and>
   lockup_engaged (run initTransmission
     (upshift_1_2 @ upshift_2_3 @ [pass 4740 (cruise 65 True), pass 4760 (cruise 55 True)])) = True"
proof -
  have "run in_third [pass 4740 (cruise 65 True)] =
      in_third\<lparr>lockup_engaged := True, lockup_duty := 75, slu_pwm := 767\<rparr>"
    by (simp add: run_def lockup_pass)
  moreover have "run in_third [pass 4740 (cruise 65 True), pass 4760 (cruise 55 True)] =
      in_third\<lparr>lockup_engaged := True, lockup_duty := 0, slu_pwm := 0\<rparr>"
    by (simp add: run_def lockup_pass band_pass)
  ultimately show ?thesis
    by (simp add: run_append first_episode second_episode in_third_def)
qed

text \<open>
  Claim C4, amended. With \<open>limp_mode\<close> set, a pass that starts in \<open>SHIFT_STABLE\<close> ends with
  \<open>target_gear = 3\<close> whatever the sensors read; a pass that starts in any other phase
  leaves \<open>target_gear\<close> as it was.
\<close>

theorem limp_target_in_stable:
  "(limp_mode g \<and> shift_state g = SHIFT_STABLE \<longrightarrow>
      target_gear (processShiftLogic sn ck g) = 3) \<and>
   (shift_state g \<noteq> SHIFT_STABLE \<longrightarrow>
      target_gear (processShiftLogic sn ck g) = target_gear g)"
  by (simp add: processShiftLogic_target_gear determineTargetGear_def)


text \<open>
  The amended statement at the initial state with limp mode latched, once in
  \<open>SHIFT_STABLE\<close> and once in \<open>SHIFT_IN_PROGRESS\<close>.
\<close>

theorem limp_target_in_stable_witness:
  "limp_mode (initTransmission\<lparr>limp_mode := True\<rparr>) \<and>
   shift_state (initTransmission\<lparr>limp_mode := True\<rparr>) = SHIFT_STABLE \<and>
   target_gear (processShiftLogic (cruise 25 True) (at_ms 3000)
     (initTransmission\<lparr>limp_mode := True\<rparr>)) = 3 \<and>
   shift_state (initTransmission\<lparr>shift_state := SHIFT_IN_PROGRESS, limp_mode := True\<rparr>) \<noteq>
     SHIFT_STABLE \<and>
   target_gear (processShiftLogic (cruise 25 True) (at_ms 3000)
     (initTransmission\<lparr>shift_state := SHIFT_IN_PROGRESS, limp_mode := True\<rparr>)) =
     target_gear (initTransmission\<lparr>shift_state := SHIFT_IN_PROGRESS, limp_mode := True\<rparr>)"
  using limp_target_in_stable [of "initTransmission\<lparr>limp_mode := True\<rparr>"
      "cruise 25 True" "at_ms 3000"]
    limp_target_in_stable [of
      "initTransmission\<lparr>shift_state := SHIFT_IN_PROGRESS, limp_mode := True\<rparr>"
      "cruise 25 True" "at_ms 3000"]
  by (simp add: initTransmission_def)


text \<open>
  Claim C4 as stated fails: limp mode is latched while second gear is requested; the
  next pass runs with \<open>limp_mode\<close> set and ends with \<open>target_gear = 2\<close>.
\<close>

theorem limp_keeps_requested_target:
  "limp_mode ((loop initTransmission (pass 3000 (cruise 25 True)))\<lparr>limp_mode := True\<rparr>) = True \<and>
   limp_mode (processShiftLogic (cruise 25 True) (at_ms 3160)
     ((loop initTransmission (pass 3000 (cruise 25 True)))\<lparr>limp_mode := True\<rparr>)) = True \<and>
   target_gear (processShiftLogic (cruise 25 True) (at_ms 3160)
     ((loop initTransmission (pass 3000 (cruise 25 True)))\<lparr>limp_mode := True\<rparr>)) = 2"
  by (simp add: request_pass limp_recheck_pass)

text \<open>
  Claim C5, amended. The core has no check of \<open>current_gear\<close> against 1..4 and never
  sets \<open>limp_mode\<close>: every pass leaves the flag as it was. Outside limp mode, a pass that
  starts in \<open>SHIFT_STABLE\<close> with \<open>current_gear\<close> outside 1..4 sets \<open>target_gear\<close> to
  \<open>current_gear\<close> itself, or to 3 when the gear is above 3 and the overdrive switch is
  off, and leaves \<open>current_gear\<close> unchanged.
\<close>

theorem invalid_gear_not_handled:
  "limp_mode (processShiftLogic sn ck g) = limp_mode g \<and>
   (\<not> limp_mode g \<and> shift_state g = SHIFT_STABLE \<and> current_gear g \<notin> {1, 2, 3, 4} \<longrightarrow>
      target_gear (processShiftLogic sn ck g) =
        (if \<not> overdrive_enabled sn \<and> current_gear g > 3 then 3 else current_gear g) \<and>
      current_gear (processShiftLogic sn ck g) = current_gear g)"
  by (simp add: processShiftLogic_limp_mode processShiftLogic_target_gear
      processShiftLogic_current_gear determineTargetGear_invalid)


text \<open>The amended statement at a controller in a fifth gear, overdrive allowed.\<close>

theorem invalid_gear_not_handled_witness:
  "\<not> limp_mode (initTransmission\<lparr>current_gear := 5, target_gear := 5\<rparr>) \<and>
   shift_state (initTransmission\<lparr>current_gear := 5, target_gear := 5\<rparr>) = SHIFT_STABLE \<and>
   current_gear (initTransmission\<lparr>current_gear := 5, target_gear := 5\<rparr>) \<notin> {1, 2, 3, 4} \<and>
   limp_mode (processShiftLogic (cruise 25 True) (at_ms 3000)
     (initTransmission\<lparr>current_gear := 5, target_gear := 5\<rparr>)) = False \<and>
   target_gear (processShiftLogic (cruise 25 True) (at_ms 3000)
     (initTransmission\<lparr>current_gear := 5, target_gear := 5\<rparr>)) = 5 \<and>
   current_gear (processShiftLogic (cruise 25 True) (at_ms 3000)
     (initTransmission\<lparr>current_gear := 5, target_gear := 5\<rparr>)) = 5"
  using invalid_gear_not_handled [of "cruise 25 True" "at_ms 3000"
      "initTransmission\<lparr>current_gear := 5, target_gear := 5\<rparr>"]
  by (simp add: initTransmission_def input_defs)

text \<open>
  Claim C5 as stated fails: a pass that starts in a fifth gear, overdrive allowed, leaves
  \<open>limp_mode\<close> clear, and both gears at 5.
\<close>

theorem invalid_gear_stays:
  "limp_mode (processShiftLogic (cruise 25 True) (at_ms 3000)
     (initTransmission\<lparr>current_gear := 5, target_gear := 5\<rparr>)) = False \<and>
   shift_state (processShiftLogic (cruise 25 True) (at_ms 3000)
     (initTransmission\<lparr>current_gear := 5, target_gear := 5\<rparr>)) = SHIFT_STABLE \<and>
   target_gear (processShiftLogic (cruise 25 True) (at_ms 3000)
     (initTransmission\<lparr>current_gear := 5, target_gear := 5\<rparr>)) = 5 \<and>
   current_gear (processShiftLogic (cruise 25 True) (at_ms 3000)
     (initTransmission\<lparr>current_gear := 5, target_gear := 5\<rparr>)) = 5"
  by (simp only: fifth_gear_pass) (simp add: initTransmission_def)

text \<open>
  Claim C6, amended. On each call the kickdown detector stores the clock reading in
  \<open>throttle_change_time\<close> exactly when the throttle sample exceeds the previous one by
  more than 20 points (a rise of exactly 20 is not recorded), then remembers the sample;
  it reports kickdown exactly when the throttle is above 85 and the 32-bit difference
  between the clock and the stored reading is below 200 ms.
\<close>

theorem isKickdownRequested_spec:
  "throttle_change_time (snd (isKickdownRequested sn ck g)) =
     (if throttle_percent sn - last_throttle g > 20 then millis (t_kd_rise ck)
      else throttle_change_time g) \<and>
   last_throttle (snd (isKickdownRequested sn ck g)) = throttle_percent sn \<and>
   fst (isKickdownRequested sn ck g) =
     (throttle_percent sn > 85 \<and>
      millis (t_kd_check ck) - throttle_change_time (snd (isKickdownRequested sn ck g)) < 200)"
  by (simp add: isKickdownRequested_def Let_def const_defs)


text \<open>
  Claim C6 as stated fails: a rise from 70 to 90 percent at 6000 ms leaves the stored
  reading at 3000 ms and reports no kickdown.
\<close>

theorem rise_of_exactly_20_not_recorded:
  "throttle_percent (snapshot 90 100 80 False True) -
     last_throttle (in_fourth\<lparr>last_throttle := 70\<rparr>) = 20 \<and>
   isKickdownRequested (snapshot 90 100 80 False True) (at_ms 6000)
     (in_fourth\<lparr>last_throttle := 70\<rparr>) =
   (False, in_fourth\<lparr>last_throttle := 90\<rparr>)"
  by (simp add: isKickdownRequested_def Let_def const_defs snapshot_def at_ms_def millis_def
      in_fourth_def)

text \<open>
  Claim C7. \<open>calculateAccumulatorDuty\<close> returns the base duty plus the temperature
  compensation, clamped to \<open>[15, 85]\<close>: the base is 50 outside \<open>SHIFT_IN_PROGRESS\<close>, and
  inside it 20 under kickdown, else 30 above 60 percent throttle, else 70 below 25
  percent, else 50, plus the learned offset of the target gear when that gear is 2, 3
  or 4; the compensation is -20 below 40 degrees, -10 from 40 to below 60, +10 above
  100 and 0 otherwise. The duty that \<open>processShiftLogic\<close> stores is therefore always
  within \<open>[15, 85]\<close>.
\<close>

theorem calculateAccumulatorDuty_spec:
  "calculateAccumulatorDuty sn g =
     clamp_spec (acc_base_spec sn g + temp_comp_spec (fluid_temp_c sn)) 15 85 \<and>
   15 \<le> accumulator_duty (processShiftLogic sn ck g) \<and>
   accumulator_duty (processShiftLogic sn ck g) \<le> 85"
  using calculateAccumulatorDuty_eq [of sn g]
    calculateAccumulatorDuty_range [of sn "shiftSwitch sn ck g"]
  by (simp add: processShiftLogic_accumulator_duty)


text \<open>
  Claim C8. Along every execution of the state machine driven by passes of the loop,
  under a monotonic clock, any two successive invocations of \<open>executeShift\<close> are more
  than \<open>SHIFT_INHIBIT_TIME\<close> = 800 ms apart. (Entry into \<open>SHIFT_REQUESTED\<close> needs
  \<open>current_time - last_shift_time > 800\<close>, lemma \<open>shiftSwitch_requested\<close>, and
  \<open>executeShift\<close> stores its own clock reading in \<open>last_shift_time\<close>, lemma
  \<open>shiftSwitch_fired\<close>.) The execution may start in any state.
\<close>

theorem shifts_spaced_by_inhibit:
  "clock_mono T is \<Longrightarrow> successively (\<lambda>a b. a + 800 < b) (shift_times g is)"
proof (induction "is" arbitrary: T g)
  case Nil
  then show ?case by simp
next
  case (Cons i "is")
  from Cons.prems have mono: "t_exec (clk i) \<le> t_learn (clk i)" "clock_mono (t_learn (clk i)) is"
    by auto
  show ?case
  proof (cases "total_shifts (loop g i) \<noteq> total_shifts g")
    case True
    note fired = loop_fired [OF True]
    have "successively (\<lambda>a b. a + 800 < b) (t_exec (clk i) # shift_times (loop g i) is)"
      using shift_times_after [OF mono(2) mono(1) fired(2)] fired(3) by simp
    with True show ?thesis by simp
  next
    case False
    with Cons.IH [OF mono(2)] show ?thesis by simp
  qed
qed


text \<open>
  The first two episodes of the sample drive: \<open>executeShift\<close> runs at 3160 ms and at
  4160 ms.
\<close>

theorem shifts_spaced_by_inhibit_witness:
  "clock_mono 0 (upshift_1_2 @ upshift_2_3) \<and>
   shift_times initTransmission (upshift_1_2 @ upshift_2_3) = [3160, 4160] \<and>
   successively (\<lambda>a b. a + 800 < b)
     (shift_times initTransmission (upshift_1_2 @ upshift_2_3))"
proof -
  have cm: "clock_mono 0 (upshift_1_2 @ upshift_2_3)"
    by (simp add: upshift_1_2_def upshift_2_3_def pass_def at_ms_def)
  have st: "shift_times initTransmission (upshift_1_2 @ upshift_2_3) = [3160, 4160]"
    by (simp add: shift_times_append first_episode first_episode_times second_episode_times)
  from cm st shifts_spaced_by_inhibit [OF cm, of initTransmission] show ?thesis
    by simp
qed




text \<open>
  Claim C10. For a gear below 1 or above 4 \<open>forceGear\<close> returns at once and changes
  nothing. For a gear from 1 to 4 it sets \<open>current_gear\<close> and \<open>target_gear\<close> to it and
  calls \<open>executeShift\<close>, which drives S1 high for gears 2 and 4 and S2 high for gears 3
  and 4.
\<close>

theorem forceGear_spec:
  "(gear < 1 \<or> gear > 4 \<longrightarrow> forceGear ck gear g = g) \<and>
   (1 \<le> gear \<and> gear \<le> 4 \<longrightarrow>
      forceGear ck gear g =
        executeShift ck gear gear (g\<lparr>current_gear := gear, target_gear := gear\<rparr>) \<and>
      current_gear (forceGear ck gear g) = gear \<and>
      target_gear (forceGear ck gear g) = gear \<and>
      s1_pin (forceGear ck gear g) = (gear = 2 \<or> gear = 4) \<and>
      s2_pin (forceGear ck gear g) = (gear = 3 \<or> gear = 4))"
  by (auto simp: forceGear_def executeShift_def Let_def)


text \<open>The statement for the commands 0, 5 and 4 given in second gear.\<close>

theorem forceGear_spec_witness:
  "forceGear (at_ms 9000) 0 in_second = in_second \<and>
   forceGear (at_ms 9000) 5 in_second = in_second \<and>
   current_gear (forceGear (at_ms 9000) 4 in_second) = 4 \<and>
   target_gear (forceGear (at_ms 9000) 4 in_second) = 4 \<and>
   s1_pin (forceGear (at_ms 9000) 4 in_second) = True \<and>
   s2_pin (forceGear (at_ms 9000) 4 in_second) = True"
  using forceGear_spec [of 0 "at_ms 9000" in_second]
    forceGear_spec [of 5 "at_ms 9000" in_second]
    forceGear_spec [of 4 "at_ms 9000" in_second]
  by (simp add: executeShift_def)

end
